theory Spec2Isabelle
  imports Main
begin

section \<open>Data model\<close>

text \<open>
  The values a caller may interpolate into a template. The code inspects a value only
  through \<^verbatim>\<open>typeof\<close>, \<^verbatim>\<open>instanceof Raw\<close>, \<^verbatim>\<open>Array.isArray\<close> and
  \<^verbatim>\<open>Object.entries\<close>; the payload of a number or boolean is never looked at, so a
  number carries an integer here.

  \<^item> \<open>Raw text ps\<close> is an instance of \<^verbatim>\<open>class Raw\<close> with \<^verbatim>\<open>value = text\<close> and
    the optional field \<^verbatim>\<open>params\<close> (\<open>None\<close> is \<^verbatim>\<open>undefined\<close>).
  \<^item> \<open>VObj entries\<close> is a plain object, given by the list \<^verbatim>\<open>Object.entries\<close>
    returns for it: its own enumerable properties in the object's iteration order (which
    the language fixes: keys that are array indices first, ascending, then the other keys
    in the order they were added).
\<close>

datatype jsvalue =
    VUndefined
  | VNull
  | VStr string
  | VNum int
  | VBool bool
  | Raw string "jsvalue list option"
  | VArr "jsvalue list"
  | VObj "(string \<times> jsvalue) list"

text \<open>The object \<^verbatim>\<open>{ query, params }\<close> that \<^verbatim>\<open>sql\<close> and \<^verbatim>\<open>commit\<close> return.\<close>

record statement =
  query :: string
  params :: "jsvalue list"

section \<open>Library functions of the host language\<close>

text \<open>\<^verbatim>\<open>Array.prototype.join\<close> on an array of strings.\<close>

fun array_join :: "string \<Rightarrow> string list \<Rightarrow> string" where
  "array_join sep [] = []"
| "array_join sep [x] = x"
| "array_join sep (x # y # ys) = x @ sep @ array_join sep (y # ys)"

text \<open>
  \<^verbatim>\<open>String.prototype.includes\<close>: \<open>str_includes s sub\<close> holds when \<open>sub\<close> occurs in
  \<open>s\<close> as a contiguous run of characters.
\<close>

fun str_includes :: "string \<Rightarrow> string \<Rightarrow> bool" where
  "str_includes [] sub = (sub = [])"
| "str_includes (c # cs) sub = (take (length sub) (c # cs) = sub \<or> str_includes cs sub)"

text \<open>
  \<^verbatim>\<open>Object.entries\<close>. An object written with the properties \<open>props\<close>, keys distinct, in
  the order they were added, lists its entries in the order of the language's own
  property keys: first the keys that are array indices, in ascending numeric order, then
  the other keys in the order they were added. An array index is the canonical decimal
  numeral of an integer from 0 to 4294967294.
\<close>

definition is_digit :: "char \<Rightarrow> bool" where
  "is_digit c = (c \<in> set ''0123456789'')"

definition digit_value :: "char \<Rightarrow> nat" where
  "digit_value c = of_char c - 48"

definition index_value :: "string \<Rightarrow> nat" where
  "index_value key = foldl (\<lambda>n c. 10 * n + digit_value c) 0 key"

definition is_array_index :: "string \<Rightarrow> bool" where
  "is_array_index key =
     (key \<noteq> [] \<and> list_all is_digit key \<and> (key = ''0'' \<or> hd key \<noteq> CHR ''0'')
      \<and> index_value key < 4294967295)"

definition object_entries :: "(string \<times> jsvalue) list \<Rightarrow> (string \<times> jsvalue) list" where
  "object_entries props =
     sort_key (\<lambda>(key, _). index_value key) (filter (\<lambda>(key, _). is_array_index key) props)
     @ filter (\<lambda>(key, _). \<not> is_array_index key) props"

text \<open>
  The value \<open>VObj\<close> carries the entries as \<^verbatim>\<open>Object.entries\<close> lists them; \<open>js_object\<close>
  is the object that was given the properties \<open>props\<close> in this order.
\<close>

definition js_object :: "(string \<times> jsvalue) list \<Rightarrow> jsvalue" where
  "js_object props = VObj (object_entries props)"

section \<open>The template tag \<^verbatim>\<open>sql\<close> (unnamed/part_001, the ES module build)\<close>

text \<open>
  One call of the callback given to \<^verbatim>\<open>strings.reduce\<close>. The accumulator is the pair of
  the string \<^verbatim>\<open>result\<close> and the array \<^verbatim>\<open>params\<close> the callback pushes onto. The
  equations are in the order of the tests of the source:
  \<^item> a string that includes \<^verbatim>\<open>sql`\<close> returns \<^verbatim>\<open>result\<close> as it is;
  \<^item> \<^verbatim>\<open>undefined\<close> and \<^verbatim>\<open>null\<close> return \<^verbatim>\<open>result + str\<close>;
  \<^item> an instance of \<^verbatim>\<open>Raw\<close> returns \<^verbatim>\<open>result + str + value.value\<close>;
  \<^item> an array pushes its elements and returns one \<^verbatim>\<open>?\<close> per element in parentheses;
  \<^item> any other object pushes the values of its entries and returns \<^verbatim>\<open>key = ?\<close> per entry;
  \<^item> everything else is pushed and returns \<^verbatim>\<open>?\<close>.
\<close>

fun sql_step :: "string \<times> jsvalue list \<Rightarrow> string \<Rightarrow> jsvalue \<Rightarrow> string \<times> jsvalue list" where
  "sql_step (result, ps) str (VStr s) =
     (if str_includes s ''sql`'' then (result, ps)
      else (result @ str @ ''?'', ps @ [VStr s]))"
| "sql_step (result, ps) str VUndefined = (result @ str, ps)"
| "sql_step (result, ps) str VNull = (result @ str, ps)"
| "sql_step (result, ps) str (Raw text bound) = (result @ str @ text, ps)"
| "sql_step (result, ps) str (VArr xs) =
     (let placeholders = array_join '', '' (map (\<lambda>_. ''?'') xs)
      in (result @ str @ ''('' @ placeholders @ '')'', ps @ xs))"
| "sql_step (result, ps) str (VObj entries) =
     (let placeholders = array_join '', '' (map (\<lambda>(key, _). key @ '' = ?'') entries)
      in (result @ str @ placeholders, ps @ map snd entries))"
| "sql_step (result, ps) str v = (result @ str @ ''?'', ps @ [v])"

text \<open>
  \<^verbatim>\<open>strings.reduce(callback, "")\<close>: the callback runs once per element of
  \<^verbatim>\<open>strings\<close>, with \<^verbatim>\<open>values[i]\<close> for the same index, which is \<^verbatim>\<open>undefined\<close>
  beyond the end of \<^verbatim>\<open>values\<close>.
\<close>

fun sql_reduce :: "string list \<Rightarrow> jsvalue list \<Rightarrow> string \<times> jsvalue list \<Rightarrow> string \<times> jsvalue list" where
  "sql_reduce [] vals acc = acc"
| "sql_reduce (str # strings) vals acc =
     sql_reduce strings (tl vals)
       (sql_step acc str (case vals of [] \<Rightarrow> VUndefined | v # _ \<Rightarrow> v))"

definition sql :: "string list \<Rightarrow> jsvalue list \<Rightarrow> statement" where
  "sql strings vals =
     (case sql_reduce strings vals ([], []) of
        (result, ps) \<Rightarrow> \<lparr>query = result, params = ps\<rparr>)"

text \<open>
  What the value of one interpolation adds: the text appended to \<^verbatim>\<open>result\<close> after
  the segment, and the values pushed onto \<^verbatim>\<open>params\<close>, read off the callback run on
  an empty accumulator and an empty segment.
\<close>

definition step_text :: "jsvalue \<Rightarrow> string" where
  "step_text v = fst (sql_step ([], []) [] v)"

definition step_params :: "jsvalue \<Rightarrow> jsvalue list" where
  "step_params v = snd (sql_step ([], []) [] v)"

text \<open>The test of the first branch of the callback.\<close>

fun skipped :: "jsvalue \<Rightarrow> bool" where
  "skipped (VStr s) = str_includes s ''sql`''"
| "skipped _ = False"

text \<open>\<^verbatim>\<open>value instanceof Raw\<close>.\<close>

fun is_raw :: "jsvalue \<Rightarrow> bool" where
  "is_raw (Raw _ _) = True"
| "is_raw _ = False"

text \<open>A string, a number or a boolean.\<close>

fun is_scalar :: "jsvalue \<Rightarrow> bool" where
  "is_scalar (VStr _) = True"
| "is_scalar (VNum _) = True"
| "is_scalar (VBool _) = True"
| "is_scalar _ = False"

text \<open>
  The number of placeholder markers in a piece of query text: the occurrences of the
  character \<^verbatim>\<open>?\<close>.
\<close>

definition marker_count :: "string \<Rightarrow> nat" where
  "marker_count s = length (filter (\<lambda>c. c = CHR ''?'') s)"

text \<open>
  The object keys that hold no \<^verbatim>\<open>?\<close>. The keys of an object are spliced into the
  query text as they are, so a \<^verbatim>\<open>?\<close> inside a key reaches the query as one more
  marker. \<open>plain_keys\<close> holds of every value that is not an object.
\<close>

fun plain_keys :: "jsvalue \<Rightarrow> bool" where
  "plain_keys (VObj entries) = list_all (\<lambda>(key, _). marker_count key = 0) entries"
| "plain_keys _ = True"

text \<open>The fields \<^verbatim>\<open>value\<close> and \<^verbatim>\<open>params\<close> of a \<^verbatim>\<open>Raw\<close> (nothing for any other value).\<close>

fun raw_text :: "jsvalue \<Rightarrow> string" where
  "raw_text (Raw text _) = text"
| "raw_text _ = []"


text \<open>
  The markers of the query text that were written by the author of the template: the
  \<^verbatim>\<open>?\<close> characters of the segments the callback appends, which is every segment but
  those in front of a skipped value.
\<close>

fun segment_markers :: "string list \<Rightarrow> jsvalue list \<Rightarrow> nat" where
  "segment_markers [] vals = 0"
| "segment_markers (str # strings) vals =
     (if skipped (case vals of [] \<Rightarrow> VUndefined | v # _ \<Rightarrow> v) then 0 else marker_count str)
     + segment_markers strings (tl vals)"

section \<open>Builders\<close>

text \<open>\<^verbatim>\<open>raw(value, params)\<close>; the second argument may be left out.\<close>

definition raw :: "string \<Rightarrow> jsvalue list option \<Rightarrow> jsvalue" where
  "raw text bound = Raw text bound"

text \<open>
  \<^verbatim>\<open>caseWhen(field, cases)\<close>, with \<open>cases\<close> given by its \<^verbatim>\<open>Object.entries\<close>. The keys
  of an object are strings, so every condition is bound as a string.
\<close>

definition caseWhen :: "string \<Rightarrow> (string \<times> jsvalue) list \<Rightarrow> jsvalue" where
  "caseWhen field cases =
     (let conditions = array_join '' '' (map (\<lambda>_. ''WHEN '' @ field @ '' = ? THEN ?'') cases);
          bound = concat (map (\<lambda>(condition, result). [VStr condition, result]) cases)
      in raw (''CASE '' @ conditions @ '' END'') (Some bound))"

section \<open>The CommonJS build (src/index.js)\<close>

text \<open>
  The older file src/index.js has the same functions. Its \<^verbatim>\<open>sql\<close> differs in one place:
  the callback has no branch for \<^verbatim>\<open>Raw\<close>. A \<^verbatim>\<open>Raw\<close> is not an array and is excluded
  from the object branch by \<^verbatim>\<open>!(value instanceof Raw)\<close>, so it reaches the last branch
  with the numbers and booleans. Its class \<^verbatim>\<open>Raw\<close> has the field \<^verbatim>\<open>value\<close> only, which
  is \<open>Raw text None\<close> here, and its \<^verbatim>\<open>caseWhen\<close> builds the text only.
\<close>

fun sql_step_cjs :: "string \<times> jsvalue list \<Rightarrow> string \<Rightarrow> jsvalue \<Rightarrow> string \<times> jsvalue list" where
  "sql_step_cjs (result, ps) str (VStr s) =
     (if str_includes s ''sql`'' then (result, ps)
      else (result @ str @ ''?'', ps @ [VStr s]))"
| "sql_step_cjs (result, ps) str VUndefined = (result @ str, ps)"
| "sql_step_cjs (result, ps) str VNull = (result @ str, ps)"
| "sql_step_cjs (result, ps) str (VArr xs) =
     (let placeholders = array_join '', '' (map (\<lambda>_. ''?'') xs)
      in (result @ str @ ''('' @ placeholders @ '')'', ps @ xs))"
| "sql_step_cjs (result, ps) str (VObj entries) =
     (let placeholders = array_join '', '' (map (\<lambda>(key, _). key @ '' = ?'') entries)
      in (result @ str @ placeholders, ps @ map snd entries))"
| "sql_step_cjs (result, ps) str v = (result @ str @ ''?'', ps @ [v])"

fun sql_reduce_cjs :: "string list \<Rightarrow> jsvalue list \<Rightarrow> string \<times> jsvalue list \<Rightarrow> string \<times> jsvalue list" where
  "sql_reduce_cjs [] vals acc = acc"
| "sql_reduce_cjs (str # strings) vals acc =
     sql_reduce_cjs strings (tl vals)
       (sql_step_cjs acc str (case vals of [] \<Rightarrow> VUndefined | v # _ \<Rightarrow> v))"

definition sql_cjs :: "string list \<Rightarrow> jsvalue list \<Rightarrow> statement" where
  "sql_cjs strings vals =
     (case sql_reduce_cjs strings vals ([], []) of
        (result, ps) \<Rightarrow> \<lparr>query = result, params = ps\<rparr>)"

definition caseWhen_cjs :: "string \<Rightarrow> (string \<times> jsvalue) list \<Rightarrow> jsvalue" where
  "caseWhen_cjs field cases =
     (let conditions = array_join '' '' (map (\<lambda>_. ''WHEN '' @ field @ '' = ? THEN ?'') cases)
      in raw (''CASE '' @ conditions @ '' END'') None)"

section \<open>The transaction accumulator\<close>

text \<open>
  The two arrays \<^verbatim>\<open>queries\<close> and \<^verbatim>\<open>params\<close> captured by the closures of
  \<^verbatim>\<open>transaction()\<close>. Every method is a function of this state that returns the new
  state, and with it the value the method returns. No method of the source throws, so
  none has an error result. (The methods of unnamed/part_001 are \<^verbatim>\<open>async\<close>; each resolves
  at once with the value modelled here.)
\<close>

record tx_state =
  tx_queries :: "string list"
  tx_params :: "jsvalue list"

definition transaction :: tx_state where
  "transaction = \<lparr>tx_queries = [], tx_params = []\<rparr>"

definition add :: "tx_state \<Rightarrow> string list \<Rightarrow> jsvalue list \<Rightarrow> tx_state" where
  "add t strings vals =
     (let r = sql strings vals
      in \<lparr>tx_queries = tx_queries t @ [query r], tx_params = tx_params t @ params r\<rparr>)"

text \<open>
  \<^verbatim>\<open>commit()\<close> reads the two arrays and changes neither. The object it returns holds
  the array \<^verbatim>\<open>params\<close> of the closure itself, not a copy; the statement here is its
  value at the time of the call.
\<close>

definition commit :: "tx_state \<Rightarrow> statement \<times> tx_state" where
  "commit t = (\<lparr>query = array_join ''; '' (tx_queries t), params = tx_params t\<rparr>, t)"

text \<open>\<^verbatim>\<open>rollback()\<close> (unnamed/part_001 only) sets the length of both arrays to zero.\<close>

definition rollback :: "tx_state \<Rightarrow> tx_state" where
  "rollback t = \<lparr>tx_queries = [], tx_params = []\<rparr>"

text \<open>A run of \<^verbatim>\<open>add\<close> calls, one per template, in order.\<close>

fun add_all :: "tx_state \<Rightarrow> (string list \<times> jsvalue list) list \<Rightarrow> tx_state" where
  "add_all t [] = t"
| "add_all t ((strings, vals) # rest) = add_all (add t strings vals) rest"

section \<open>Properties of the reduction\<close>

lemma sql_step_acc:
  "sql_step (result, ps) str v =
     (result @ fst (sql_step ([], []) str v), ps @ snd (sql_step ([], []) str v))"
  by (cases "(([], []) :: string \<times> jsvalue list, str, v)" rule: sql_step.cases)
     (simp_all add: Let_def)

lemma sql_reduce_acc:
  "sql_reduce strings vals (result, ps) =
     (result @ fst (sql_reduce strings vals ([], [])),
      ps @ snd (sql_reduce strings vals ([], [])))"
proof (induction strings arbitrary: vals result ps)
  case Nil
  show ?case by simp
next
  case (Cons str strings)
  let ?v = "case vals of [] \<Rightarrow> VUndefined | v # _ \<Rightarrow> v"
  obtain r1 p1 where s0: "sql_step ([], []) str ?v = (r1, p1)"
    by (cases "sql_step ([], []) str ?v")
  have s1: "sql_step (result, ps) str ?v = (result @ r1, ps @ p1)"
    using sql_step_acc [of result ps str ?v] s0 by simp
  show ?case
    using Cons.IH [of "tl vals" "result @ r1" "ps @ p1"] Cons.IH [of "tl vals" r1 p1] s0 s1
    by simp
qed

lemma sql_reduce_append:
  "sql_reduce (pre @ post) vals acc =
     sql_reduce post (drop (length pre) vals) (sql_reduce pre vals acc)"
proof (induction pre arbitrary: vals acc)
  case Nil
  show ?case by simp
next
  case (Cons str pre)
  show ?case using Cons.IH [of "tl vals"] by (simp add: drop_Suc)
qed

lemma sql_reduce_prefix:
  "length strings \<le> length vs \<Longrightarrow> sql_reduce strings (vs @ ws) acc = sql_reduce strings vs acc"
proof (induction strings arbitrary: vs acc)
  case Nil
  show ?case by simp
next
  case (Cons str strings)
  then obtain v vs' where vs: "vs = v # vs'"
    by (cases vs) auto
  with Cons.prems have "length strings \<le> length vs'" by simp
  from Cons.IH [OF this] vs show ?case by simp
qed

lemma params_sql: "params (sql strings vals) = snd (sql_reduce strings vals ([], []))"
  by (simp add: sql_def split: prod.split)

text \<open>
  The statement of a template splits at any interpolation: what comes before it, what the
  callback adds for this segment and value, and what comes after it. The value with index
  \<open>length pre\<close> is the one that follows segment \<open>str\<close>.
\<close>

lemma sql_position:
  assumes len: "length vs = length pre"
  shows "sql (pre @ str # post) (vs @ v # ws) =
           \<lparr>query = query (sql pre vs) @ fst (sql_step ([], []) str v) @ query (sql post ws),
            params = params (sql pre vs) @ snd (sql_step ([], []) str v) @ params (sql post ws)\<rparr>"
proof -
  obtain r1 p1 where a: "sql_reduce pre vs ([], []) = (r1, p1)"
    by (cases "sql_reduce pre vs ([], [])")
  obtain r2 p2 where m: "sql_step ([], []) str v = (r2, p2)"
    by (cases "sql_step ([], []) str v")
  obtain r3 p3 where b: "sql_reduce post ws ([], []) = (r3, p3)"
    by (cases "sql_reduce post ws ([], [])")
  have "sql_reduce pre (vs @ v # ws) ([], []) = (r1, p1)"
    using sql_reduce_prefix [of pre vs "v # ws" "([], [])"] len a by simp
  moreover have "sql_step (r1, p1) str v = (r1 @ r2, p1 @ p2)"
    using sql_step_acc [of r1 p1 str v] m by simp
  moreover have "sql_reduce post ws (r1 @ r2, p1 @ p2) = ((r1 @ r2) @ r3, (p1 @ p2) @ p3)"
    using sql_reduce_acc [of post ws "r1 @ r2" "p1 @ p2"] b by simp
  ultimately have "sql_reduce (pre @ str # post) (vs @ v # ws) ([], []) =
      (r1 @ r2 @ r3, p1 @ p2 @ p3)"
    using len by (simp add: sql_reduce_append)
  then show ?thesis
    using a m b by (simp add: sql_def)
qed

section \<open>Raw fragments\<close>

text \<open>
  The text of a \<^verbatim>\<open>Raw\<close> is spliced after its segment as it is, whatever it holds, and
  the callback pushes nothing for it: the field \<^verbatim>\<open>params\<close> of the fragment is never
  read.
\<close>

lemma sql_raw_position:
  assumes "length vs = length pre"
  shows "sql (pre @ str # post) (vs @ Raw text bound # ws) =
           \<lparr>query = query (sql pre vs) @ str @ text @ query (sql post ws),
            params = params (sql pre vs) @ params (sql post ws)\<rparr>"
  using sql_position [OF assms, of str post "Raw text bound" ws] by simp

text \<open>
  C1. A raw fragment is spliced verbatim with no placeholder, and its bound values are
  appended to the parameter list at that position. The second half fails: the README
  documents that interpolating \<^verbatim>\<open>caseWhen("status", statusMap)\<close> yields the conditions
  and results as \<^verbatim>\<open>params\<close>, and \<^verbatim>\<open>caseWhen\<close> stores them in the fragment, but
  \<^verbatim>\<open>sql\<close> returns the four placeholders of the fragment with an empty parameter list.
\<close>

theorem sql_drops_raw_bound_values:
  "sql [''SELECT '', '' AS s FROM users'']
       [caseWhen ''status'' [(''active'', VNum 1), (''inactive'', VNum 0)]] =
     \<lparr>query = ''SELECT CASE WHEN status = ? THEN ? WHEN status = ? THEN ? END AS s FROM users'',
      params = []\<rparr>"
  by (simp add: sql_def caseWhen_def raw_def)

section \<open>The skip marker\<close>

lemma sql_step_skipped: "skipped v \<Longrightarrow> sql_step acc str v = acc"
  by (cases "(acc, str, v)" rule: sql_step.cases) simp_all

text \<open>
  C2. For a string value that contains \<^verbatim>\<open>sql`\<close> the segment before it is appended and
  nothing is appended for the value. The code returns \<^verbatim>\<open>result\<close> before the segment is
  appended, so the segment is lost with the value; the branch for \<^verbatim>\<open>null\<close> and
  \<^verbatim>\<open>undefined\<close>, which also ignores the value, returns \<^verbatim>\<open>result + str\<close>.
\<close>

theorem sql_skip_marker_drops_segment:
  "sql [''SELECT id '', ''FROM users''] [VStr ''sql`AND x`''] =
     \<lparr>query = ''FROM users'', params = []\<rparr>
   \<and> sql [''SELECT id '', ''FROM users''] [VNull] =
     \<lparr>query = ''SELECT id FROM users'', params = []\<rparr>"
  by (simp add: sql_def)

section \<open>Scalars\<close>

lemma sql_step_scalar:
  "is_scalar v \<Longrightarrow> \<not> skipped v \<Longrightarrow>
     sql_step (result, ps) str v = (result @ str @ ''?'', ps @ [v])"
  by (cases v) simp_all

text \<open>
  C4, as stated: every string, number or boolean interpolated once is bound as exactly one
  parameter, at the position of the one \<^verbatim>\<open>?\<close> emitted for it. A string that contains
  \<^verbatim>\<open>sql`\<close> is a scalar and is not bound: the first test of the callback returns before
  anything is pushed.
\<close>

theorem sql_scalar_skip_counterexample:
  "is_scalar (VStr ''sql`'')
   \<and> params (sql [''SELECT * FROM users WHERE name = '', ''''] [VStr ''sql`'']) = []"
  by (simp add: sql_def)

text \<open>
  C4, amended: a number, a boolean, or a string that does not contain \<^verbatim>\<open>sql`\<close>, being
  the value with index \<open>length pre\<close>, adds one \<^verbatim>\<open>?\<close> right after its segment and
  itself, unchanged, as one parameter, after the parameters of the interpolations before
  it and before those of the interpolations after it. A boolean is bound as the boolean.
\<close>

theorem sql_scalar_bound_once:
  assumes "length vs = length pre" and "is_scalar v" and "\<not> skipped v"
  shows "sql (pre @ str # post) (vs @ v # ws) =
           \<lparr>query = query (sql pre vs) @ str @ ''?'' @ query (sql post ws),
            params = params (sql pre vs) @ [v] @ params (sql post ws)\<rparr>"
  using sql_position [OF assms(1), of str post v ws] sql_step_scalar [OF assms(2,3), of "[]" "[]" str]
  by simp

theorem sql_scalar_bound_once_witness:
  "length [VNum 7] = length [''SELECT * FROM t WHERE a = '']
   \<and> is_scalar (VBool True) \<and> \<not> skipped (VBool True)
   \<and> sql ([''SELECT * FROM t WHERE a = ''] @ '' AND b = '' # ['' AND c = '', ''''])
          ([VNum 7] @ VBool True # [VStr ''x'']) =
       \<lparr>query = ''SELECT * FROM t WHERE a = ? AND b = ? AND c = ?'',
        params = [VNum 7, VBool True, VStr ''x'']\<rparr>"
proof -
  have h1: "length [VNum 7] = length [''SELECT * FROM t WHERE a = '']" by simp
  have h2: "is_scalar (VBool True)" by simp
  have h3: "\<not> skipped (VBool True)" by simp
  have "query (sql [''SELECT * FROM t WHERE a = ''] [VNum 7]) = ''SELECT * FROM t WHERE a = ?''"
    and "params (sql [''SELECT * FROM t WHERE a = ''] [VNum 7]) = [VNum 7]"
    and "query (sql ['' AND c = '', ''''] [VStr ''x'']) = '' AND c = ?''"
    and "params (sql ['' AND c = '', ''''] [VStr ''x'']) = [VStr ''x'']"
    by (simp_all add: sql_def)
  with sql_scalar_bound_once [OF h1 h2 h3, of "'' AND b = ''" "['' AND c = '', '''']" "[VStr ''x'']"]
  show ?thesis by simp
qed

section \<open>Arrays and objects\<close>

lemma map_const_replicate: "map (\<lambda>_. c) xs = replicate (length xs) c"
  by (induction xs) simp_all

text \<open>
  C5. An array, being the value with index \<open>length pre\<close>, adds after its segment an opening
  parenthesis, one \<^verbatim>\<open>?\<close> per element joined by a comma and a space, and a closing
  parenthesis; its elements are appended to the parameters in their order, at that
  position. The empty array adds \<^verbatim>\<open>()\<close> and no parameter.
\<close>

theorem sql_array:
  assumes "length vs = length pre"
  shows "sql (pre @ str # post) (vs @ VArr xs # ws) =
           \<lparr>query = query (sql pre vs) @ str
                      @ ''('' @ array_join '', '' (replicate (length xs) ''?'') @ '')''
                      @ query (sql post ws),
            params = params (sql pre vs) @ xs @ params (sql post ws)\<rparr>
         \<and> sql (pre @ str # post) (vs @ VArr [] # ws) =
           \<lparr>query = query (sql pre vs) @ str @ ''()'' @ query (sql post ws),
            params = params (sql pre vs) @ params (sql post ws)\<rparr>"
  using sql_position [OF assms, of str post "VArr xs" ws]
        sql_position [OF assms, of str post "VArr []" ws]
  by (simp add: map_const_replicate)

theorem sql_array_witness:
  "length [VNum 7] = length [''SELECT * FROM t WHERE a = '']
   \<and> sql ([''SELECT * FROM t WHERE a = ''] @ '' AND id IN '' # ['' AND b = '', ''''])
          ([VNum 7] @ VArr [VNum 1, VNum 2, VNum 3] # [VBool False]) =
       \<lparr>query = ''SELECT * FROM t WHERE a = ? AND id IN (?, ?, ?) AND b = ?'',
        params = [VNum 7, VNum 1, VNum 2, VNum 3, VBool False]\<rparr>
   \<and> sql ([''SELECT * FROM t WHERE a = ''] @ '' AND id IN '' # ['' AND b = '', ''''])
          ([VNum 7] @ VArr [] # [VBool False]) =
       \<lparr>query = ''SELECT * FROM t WHERE a = ? AND id IN () AND b = ?'',
        params = [VNum 7, VBool False]\<rparr>"
proof -
  have h: "length [VNum 7] = length [''SELECT * FROM t WHERE a = '']" by simp
  have "sql [''SELECT * FROM t WHERE a = ''] [VNum 7] =
          \<lparr>query = ''SELECT * FROM t WHERE a = ?'', params = [VNum 7]\<rparr>"
    and "sql ['' AND b = '', ''''] [VBool False] =
          \<lparr>query = '' AND b = ?'', params = [VBool False]\<rparr>"
    by (simp_all add: sql_def)
  with sql_array [OF h, of "'' AND id IN ''" "['' AND b = '', '''']"
                     "[VNum 1, VNum 2, VNum 3]" "[VBool False]"]
  show ?thesis by (simp add: numeral_3_eq_3)
qed

text \<open>
  The object branch follows the list of entries it gets from \<^verbatim>\<open>Object.entries\<close>, for
  the text and for the parameters, and does not reorder it.
\<close>

lemma sql_entries:
  assumes "length vs = length pre"
  shows "sql (pre @ str # post) (vs @ VObj entries # ws) =
           \<lparr>query = query (sql pre vs) @ str
                      @ array_join '', '' (map (\<lambda>(key, _). key @ '' = ?'') entries)
                      @ query (sql post ws),
            params = params (sql pre vs) @ map snd entries @ params (sql post ws)\<rparr>"
  using sql_position [OF assms, of str post "VObj entries" ws]
  by simp

lemma object_entries_no_index:
  assumes "list_all (\<lambda>(key, _). \<not> is_array_index key) props"
  shows "object_entries props = props"
proof -
  from assms have "filter (\<lambda>(key, _). is_array_index key) props = []"
    by (induction props) auto
  moreover from assms have "filter (\<lambda>(key, _). \<not> is_array_index key) props = props"
    by (induction props) auto
  ultimately show ?thesis by (simp add: object_entries_def)
qed

text \<open>
  C6, as stated: the entries of an interpolated object appear in the order in which its
  keys were added, never sorted. The code takes the order of \<^verbatim>\<open>Object.entries\<close>, which
  lists keys that are array indices first, in ascending numeric order: an object given
  \<^verbatim>\<open>name\<close>, \<^verbatim>\<open>10\<close> and \<^verbatim>\<open>2\<close> in this order is rendered as \<^verbatim>\<open>2\<close>, \<^verbatim>\<open>10\<close>,
  \<^verbatim>\<open>name\<close>, in the text and in the parameters.
\<close>

theorem sql_object_order_counterexample:
  "sql [''UPDATE t SET '', '' WHERE id = 1'']
       [js_object [(''name'', VStr ''John''), (''10'', VNum 1), (''2'', VNum 2)]] =
     \<lparr>query = ''UPDATE t SET 2 = ?, 10 = ?, name = ? WHERE id = 1'',
      params = [VNum 2, VNum 1, VStr ''John'']\<rparr>"
  by (simp add: sql_def js_object_def object_entries_def is_array_index_def is_digit_def
        index_value_def digit_value_def)

text \<open>
  C6, amended: an object that is neither a \<^verbatim>\<open>Raw\<close> nor an array, being the value with
  index \<open>length pre\<close>, adds after its segment \<^verbatim>\<open>key = ?\<close> for each entry, joined by a
  comma and a space, with no parentheses, and the values of the entries as parameters at
  that position, both in the order of \<^verbatim>\<open>Object.entries\<close>: the keys that are array
  indices first, in ascending numeric order, then the other keys in the order they were
  added. The code itself does not reorder, so an object none of whose keys is an array
  index is rendered in the order its keys were added.
\<close>

theorem sql_object:
  assumes "length vs = length pre"
  shows "sql (pre @ str # post) (vs @ js_object props # ws) =
           \<lparr>query = query (sql pre vs) @ str
                      @ array_join '', '' (map (\<lambda>(key, _). key @ '' = ?'') (object_entries props))
                      @ query (sql post ws),
            params = params (sql pre vs) @ map snd (object_entries props) @ params (sql post ws)\<rparr>
         \<and> object_entries props =
             sort_key (\<lambda>(key, _). index_value key) (filter (\<lambda>(key, _). is_array_index key) props)
             @ filter (\<lambda>(key, _). \<not> is_array_index key) props
         \<and> (list_all (\<lambda>(key, _). \<not> is_array_index key) props \<longrightarrow>
              sql (pre @ str # post) (vs @ js_object props # ws) =
                \<lparr>query = query (sql pre vs) @ str
                           @ array_join '', '' (map (\<lambda>(key, _). key @ '' = ?'') props)
                           @ query (sql post ws),
                 params = params (sql pre vs) @ map snd props @ params (sql post ws)\<rparr>)"
proof -
  have main: "sql (pre @ str # post) (vs @ js_object props # ws) =
           \<lparr>query = query (sql pre vs) @ str
                      @ array_join '', '' (map (\<lambda>(key, _). key @ '' = ?'') (object_entries props))
                      @ query (sql post ws),
            params = params (sql pre vs) @ map snd (object_entries props) @ params (sql post ws)\<rparr>"
    using sql_entries [OF assms, of str post "object_entries props" ws]
    by (simp add: js_object_def)
  have order: "object_entries props =
             sort_key (\<lambda>(key, _). index_value key) (filter (\<lambda>(key, _). is_array_index key) props)
             @ filter (\<lambda>(key, _). \<not> is_array_index key) props"
    by (simp add: object_entries_def)
  have plain: "list_all (\<lambda>(key, _). \<not> is_array_index key) props \<longrightarrow>
              sql (pre @ str # post) (vs @ js_object props # ws) =
                \<lparr>query = query (sql pre vs) @ str
                           @ array_join '', '' (map (\<lambda>(key, _). key @ '' = ?'') props)
                           @ query (sql post ws),
                 params = params (sql pre vs) @ map snd props @ params (sql post ws)\<rparr>"
  proof
    assume "list_all (\<lambda>(key, _). \<not> is_array_index key) props"
    then have "object_entries props = props"
      by (rule object_entries_no_index)
    with main show "sql (pre @ str # post) (vs @ js_object props # ws) =
                \<lparr>query = query (sql pre vs) @ str
                           @ array_join '', '' (map (\<lambda>(key, _). key @ '' = ?'') props)
                           @ query (sql post ws),
                 params = params (sql pre vs) @ map snd props @ params (sql post ws)\<rparr>"
      by simp
  qed
  from main order plain show ?thesis by blast
qed

theorem sql_object_witness:
  "length [VStr ''users''] = length [''UPDATE '']
   \<and> list_all (\<lambda>(key, _). \<not> is_array_index key) [(''name'', VStr ''John''), (''age'', VNum 30)]
   \<and> sql ([''UPDATE ''] @ '' SET '' # ['' WHERE id = '', ''''])
          ([VStr ''users''] @ js_object [(''name'', VStr ''John''), (''age'', VNum 30)] # [VNum 1]) =
       \<lparr>query = ''UPDATE ? SET name = ?, age = ? WHERE id = ?'',
        params = [VStr ''users'', VStr ''John'', VNum 30, VNum 1]\<rparr>"
proof -
  have h: "length [VStr ''users''] = length [''UPDATE '']" by simp
  have k: "list_all (\<lambda>(key, _). \<not> is_array_index key) [(''name'', VStr ''John''), (''age'', VNum 30)]"
    by (simp add: is_array_index_def is_digit_def)
  have "sql [''UPDATE ''] [VStr ''users''] = \<lparr>query = ''UPDATE ?'', params = [VStr ''users'']\<rparr>"
    and "sql ['' WHERE id = '', ''''] [VNum 1] = \<lparr>query = '' WHERE id = ?'', params = [VNum 1]\<rparr>"
    by (simp_all add: sql_def)
  with k sql_object [OF h, of "'' SET ''" "['' WHERE id = '', '''']"
                      "[(''name'', VStr ''John''), (''age'', VNum 30)]" "[VNum 1]"]
  show ?thesis by simp
qed

section \<open>The CASE builder\<close>

text \<open>
  C7. \<^verbatim>\<open>caseWhen(field, cases)\<close> returns a raw fragment. Its text is
  \<^verbatim>\<open>WHEN <field> = ? THEN ?\<close> once per entry of \<open>cases\<close>, joined by a space, between
  \<^verbatim>\<open>CASE\<close> and \<^verbatim>\<open>END\<close>; its bound values are the condition and the result of each
  entry, entry after entry. The second conjunct is the example of the specification.
\<close>

theorem caseWhen_fragment:
  "caseWhen field cases =
     Raw (''CASE ''
          @ array_join '' '' (replicate (length cases) (''WHEN '' @ field @ '' = ? THEN ?''))
          @ '' END'')
         (Some (concat (map (\<lambda>(condition, result). [VStr condition, result]) cases)))
   \<and> caseWhen ''status'' [(''active'', VNum 1), (''inactive'', VNum 0)] =
     Raw ''CASE WHEN status = ? THEN ? WHEN status = ? THEN ? END''
         (Some [VStr ''active'', VNum 1, VStr ''inactive'', VNum 0])"
  by (simp add: caseWhen_def raw_def map_const_replicate)

section \<open>Transactions\<close>

lemma add_all_queries:
  "tx_queries (add_all t ts) = tx_queries t @ map (\<lambda>(strings, vals). query (sql strings vals)) ts"
  by (induction t ts rule: add_all.induct) (simp_all add: add_def Let_def)

lemma add_all_params:
  "tx_params (add_all t ts) =
     tx_params t @ concat (map (\<lambda>(strings, vals). params (sql strings vals)) ts)"
  by (induction t ts rule: add_all.induct) (simp_all add: add_def Let_def)

text \<open>
  C8. On a fresh accumulator, after \<^verbatim>\<open>add\<close> was called with the templates \<open>ts\<close> in
  order, \<^verbatim>\<open>commit()\<close> returns the query texts of the templates joined by a semicolon
  and a space, and the concatenation of their parameter lists, in the order of the calls.
\<close>

theorem commit_after_adds:
  "fst (commit (add_all transaction ts)) =
     \<lparr>query = array_join ''; '' (map (\<lambda>(strings, vals). query (sql strings vals)) ts),
      params = concat (map (\<lambda>(strings, vals). params (sql strings vals)) ts)\<rparr>"
  by (simp add: commit_def add_all_queries add_all_params transaction_def)

text \<open>
  C9, as stated: after \<^verbatim>\<open>commit()\<close>, \<^verbatim>\<open>add\<close> is rejected and extends nothing. The
  code keeps no record of a commit: the statement added after the first commit is part
  of what the second commit returns.
\<close>

theorem add_after_commit_counterexample:
  "fst (commit (add (snd (commit (add transaction [''INSERT INTO a VALUES ('', '')''] [VNum 1])))
                    [''DELETE FROM b WHERE id = '', ''''] [VNum 2])) =
     \<lparr>query = ''INSERT INTO a VALUES (?); DELETE FROM b WHERE id = ?'',
      params = [VNum 1, VNum 2]\<rparr>"
  by (simp add: commit_def add_def transaction_def sql_def Let_def)

text \<open>
  C9, amended: \<^verbatim>\<open>commit()\<close> leaves the accumulator as it was, so \<^verbatim>\<open>add\<close> after a
  commit is accepted like any other \<^verbatim>\<open>add\<close>: it appends the query text and the
  parameters of its template, and the next commit returns them with the earlier ones.
\<close>

theorem add_after_commit_accepted:
  "snd (commit t) = t
   \<and> add (snd (commit t)) strings vals =
       \<lparr>tx_queries = tx_queries t @ [query (sql strings vals)],
        tx_params = tx_params t @ params (sql strings vals)\<rparr>
   \<and> fst (commit (add (snd (commit t)) strings vals)) =
       \<lparr>query = array_join ''; '' (tx_queries t @ [query (sql strings vals)]),
        params = tx_params t @ params (sql strings vals)\<rparr>"
  by (simp add: commit_def add_def Let_def)

text \<open>
  C10. \<^verbatim>\<open>rollback()\<close> is not terminal either. Whatever the accumulator held, after
  \<^verbatim>\<open>rollback()\<close> a commit returns the empty query text and no parameters, and the
  templates added after the rollback are what the following commit returns.
\<close>

theorem commit_after_rollback:
  "fst (commit (rollback t)) = \<lparr>query = [], params = []\<rparr>
   \<and> fst (commit (add_all (snd (commit (rollback t))) ts)) =
       \<lparr>query = array_join ''; '' (map (\<lambda>(strings, vals). query (sql strings vals)) ts),
        params = concat (map (\<lambda>(strings, vals). params (sql strings vals)) ts)\<rparr>"
  by (simp add: commit_def rollback_def add_all_queries add_all_params)

section \<open>Placeholders and parameters\<close>

lemma sql_step_params: "snd (sql_step acc str v) = snd acc @ step_params v"
  by (cases "(acc, str, v)" rule: sql_step.cases) (simp_all add: step_params_def Let_def)

lemma sql_reduce_params_length:
  "length (snd (sql_reduce strings vals acc)) =
     length (snd acc) + sum_list (map (\<lambda>v. length (step_params v)) (take (length strings) vals))"
proof (induction strings arbitrary: vals acc)
  case Nil
  show ?case by simp
next
  case (Cons str strings)
  show ?case
  proof (cases vals)
    case Nil
    have "step_params VUndefined = []" by (simp add: step_params_def)
    with Nil Cons.IH [of "[]" "sql_step acc str VUndefined"] show ?thesis
      by (simp add: sql_step_params)
  next
    case (Cons v vals')
    with Cons.IH [of vals' "sql_step acc str v"] show ?thesis
      by (simp add: sql_step_params)
  qed
qed

lemma marker_count_append: "marker_count (s @ t) = marker_count s + marker_count t"
  by (simp add: marker_count_def)

lemma marker_count_join:
  "marker_count sep = 0 \<Longrightarrow> marker_count (array_join sep xs) = sum_list (map marker_count xs)"
  by (induction sep xs rule: array_join.induct)
     (simp_all add: marker_count_append, simp add: marker_count_def)

lemma marker_count_array: "marker_count (array_join '', '' (map (\<lambda>_. ''?'') xs)) = length xs"
proof -
  have "marker_count '', '' = 0" by (simp add: marker_count_def)
  from marker_count_join [OF this, of "map (\<lambda>_. ''?'') xs"]
  have "marker_count (array_join '', '' (map (\<lambda>_. ''?'') xs)) =
          sum_list (map (\<lambda>_. marker_count ''?'') xs)"
    by (simp add: comp_def)
  also have "\<dots> = length xs"
    by (induction xs) (simp_all add: marker_count_def)
  finally show ?thesis .
qed

lemma marker_count_object:
  assumes "list_all (\<lambda>(key, _). marker_count key = 0) entries"
  shows "marker_count (array_join '', '' (map (\<lambda>(key, _). key @ '' = ?'') entries)) =
           length entries"
proof -
  have "marker_count '', '' = 0" by (simp add: marker_count_def)
  from marker_count_join [OF this, of "map (\<lambda>(key, _). key @ '' = ?'') entries"]
  have "marker_count (array_join '', '' (map (\<lambda>(key, _). key @ '' = ?'') entries)) =
          sum_list (map (\<lambda>e. marker_count (fst e @ '' = ?'')) entries)"
    by (simp add: comp_def case_prod_beta)
  also from assms have "\<dots> = length entries"
    by (induction entries) (auto simp: marker_count_def)
  finally show ?thesis .
qed

lemma marker_count_step:
  "plain_keys v \<Longrightarrow> \<not> is_raw v \<Longrightarrow> marker_count (step_text v) = length (step_params v)"
proof (cases v)
  case (VArr xs)
  then show ?thesis
    using marker_count_array [of xs]
    by (simp add: step_text_def step_params_def marker_count_append)
       (simp add: marker_count_def)
next
  case (VObj entries)
  assume "plain_keys v"
  with VObj show ?thesis
    using marker_count_object [of entries]
    by (simp add: step_text_def step_params_def)
qed (simp_all add: step_text_def step_params_def marker_count_def)

lemma step_text_skipped: "skipped v \<Longrightarrow> step_text v = []"
  by (cases v) (simp_all add: step_text_def)

lemma step_text_raw: "is_raw v \<Longrightarrow> step_text v = raw_text v"
  by (cases v) (simp_all add: step_text_def)

lemma sql_step_text:
  "fst (sql_step acc str v) = (if skipped v then fst acc else fst acc @ str @ step_text v)"
  by (cases "(acc, str, v)" rule: sql_step.cases) (simp_all add: step_text_def Let_def)

text \<open>
  The markers of the query text are those of the segments that were appended and those of
  the text each value added.
\<close>

lemma sql_reduce_markers:
  "marker_count (fst (sql_reduce strings vals acc)) =
     marker_count (fst acc) + segment_markers strings vals
     + sum_list (map (\<lambda>v. marker_count (step_text v)) (take (length strings) vals))"
proof (induction strings arbitrary: vals acc)
  case Nil
  show ?case by simp
next
  case (Cons str strings)
  have undef: "step_text VUndefined = []" by (simp add: step_text_def)
  show ?case
  proof (cases vals)
    case Nil
    with Cons.IH [of "[]" "sql_step acc str VUndefined"] undef show ?thesis
      by (simp add: sql_step_text marker_count_append)
  next
    case (Cons v vals')
    with Cons.IH [of vals' "sql_step acc str v"] show ?thesis
      by (simp add: sql_step_text marker_count_append step_text_skipped)
         (simp add: marker_count_def)
  qed
qed

lemma sum_list_filter_split:
  "sum_list (map f xs) =
     sum_list (map f (filter P xs)) + sum_list (map f (filter (\<lambda>x. \<not> P x) xs))"
  for f :: "'a \<Rightarrow> nat"
  by (induction xs) simp_all

lemma step_params_raw: "sum_list (map (\<lambda>v. length (step_params v)) (filter is_raw vals)) = 0"
proof (induction vals)
  case Nil
  show ?case by simp
next
  case (Cons v vals)
  then show ?case by (cases v) (simp_all add: step_params_def)
qed

lemma marker_count_raw:
  "sum_list (map (\<lambda>v. marker_count (step_text v)) (filter is_raw vals)) =
     sum_list (map (\<lambda>v. marker_count (raw_text v)) (filter is_raw vals))"
  by (induction vals) (simp_all add: step_text_raw)

lemma marker_count_nonraw:
  "list_all plain_keys vals \<Longrightarrow>
     sum_list (map (\<lambda>v. marker_count (step_text v)) (filter (\<lambda>v. \<not> is_raw v) vals)) =
     sum_list (map (\<lambda>v. length (step_params v)) (filter (\<lambda>v. \<not> is_raw v) vals))"
  by (induction vals) (simp_all add: marker_count_step)


text \<open>
  The balance of markers and parameters, on the pair the reduction returns: the markers
  of the query text are those of the appended segments, those inside the text of raw
  fragments, and one for each parameter.
\<close>

lemma sql_reduce_marker_balance:
  assumes "length vals + 1 = length strings" and "list_all plain_keys vals"
  shows "marker_count (fst (sql_reduce strings vals ([], []))) =
           segment_markers strings vals
           + sum_list (map (\<lambda>v. marker_count (raw_text v)) (filter is_raw vals))
           + length (snd (sql_reduce strings vals ([], [])))"
proof -
  from assms(1) have take: "take (length strings) vals = vals" by simp
  have "length (snd (sql_reduce strings vals ([], []))) =
          sum_list (map (\<lambda>v. length (step_params v)) vals)"
    using sql_reduce_params_length [of strings vals "([], [])"] take by simp
  also have "\<dots> = sum_list (map (\<lambda>v. length (step_params v)) (filter is_raw vals))
                 + sum_list (map (\<lambda>v. length (step_params v)) (filter (\<lambda>v. \<not> is_raw v) vals))"
    by (rule sum_list_filter_split)
  finally have ps: "length (snd (sql_reduce strings vals ([], []))) =
      sum_list (map (\<lambda>v. marker_count (step_text v)) (filter (\<lambda>v. \<not> is_raw v) vals))"
    using step_params_raw [of vals] marker_count_nonraw [OF assms(2)] by simp
  have "marker_count (fst (sql_reduce strings vals ([], []))) =
          segment_markers strings vals + sum_list (map (\<lambda>v. marker_count (step_text v)) vals)"
    using sql_reduce_markers [of strings vals "([], [])"] take by (simp add: marker_count_def)
  also have "sum_list (map (\<lambda>v. marker_count (step_text v)) vals) =
               sum_list (map (\<lambda>v. marker_count (step_text v)) (filter is_raw vals))
               + sum_list (map (\<lambda>v. marker_count (step_text v)) (filter (\<lambda>v. \<not> is_raw v) vals))"
    by (rule sum_list_filter_split)
  finally show ?thesis
    using ps marker_count_raw [of vals] by simp
qed

lemma query_sql: "query (sql strings vals) = fst (sql_reduce strings vals ([], []))"
  by (simp add: sql_def split: prod.split)




section \<open>The CommonJS build and raw fragments\<close>

lemma sql_step_cjs_eq: "\<not> is_raw v \<Longrightarrow> sql_step_cjs acc str v = sql_step acc str v"
  by (cases "(acc, str, v)" rule: sql_step.cases) simp_all

lemma sql_reduce_cjs_eq:
  "list_all (\<lambda>v. \<not> is_raw v) vals \<Longrightarrow> sql_reduce_cjs strings vals acc = sql_reduce strings vals acc"
proof (induction strings arbitrary: vals acc)
  case Nil
  show ?case by simp
next
  case (Cons str strings)
  show ?case
  proof (cases vals)
    case Nil
    with Cons.IH [of "[]"] show ?thesis by (simp add: sql_step_cjs_eq)
  next
    case (Cons v vals')
    with Cons.prems Cons.IH [of vals'] show ?thesis by (simp add: sql_step_cjs_eq)
  qed
qed

text \<open>On templates without raw fragments the two builds return the same statement.\<close>

lemma sql_cjs_eq: "list_all (\<lambda>v. \<not> is_raw v) vals \<Longrightarrow> sql_cjs strings vals = sql strings vals"
  by (simp add: sql_cjs_def sql_def sql_reduce_cjs_eq)

text \<open>
  On the template of the test \<^emph>\<open>raw SQL values\<close> the CommonJS build emits a placeholder
  and binds the fragment itself, where the test expects the text of the fragment and no
  parameter, which is what the current build returns.
\<close>

lemma sql_cjs_binds_raw:
  "sql_cjs [''SELECT * FROM users WHERE '', ''''] [raw ''created_at > NOW()'' None] =
     \<lparr>query = ''SELECT * FROM users WHERE ?'', params = [Raw ''created_at > NOW()'' None]\<rparr>"
  by (simp add: sql_cjs_def raw_def)

lemma sql_splices_raw:
  "sql [''SELECT * FROM users WHERE '', ''''] [raw ''created_at > NOW()'' None] =
     \<lparr>query = ''SELECT * FROM users WHERE created_at > NOW()'', params = []\<rparr>"
  by (simp add: sql_def raw_def)

lemma caseWhen_cjs_text:
  "caseWhen_cjs field cases =
     Raw (''CASE ''
          @ array_join '' '' (replicate (length cases) (''WHEN '' @ field @ '' = ? THEN ?''))
          @ '' END'') None"
  by (simp add: caseWhen_cjs_def raw_def map_const_replicate)

text \<open>
  On templates without raw fragments the balance of markers and parameters holds of the
  CommonJS build as well.
\<close>

lemma sql_cjs_marker_balance:
  assumes "length vals + 1 = length strings" and "list_all plain_keys vals"
    and "list_all (\<lambda>v. \<not> is_raw v) vals"
  shows "marker_count (query (sql_cjs strings vals)) =
           segment_markers strings vals + length (params (sql_cjs strings vals))"
proof -
  from assms(3) have "filter is_raw vals = []"
    by (induction vals) simp_all
  with sql_reduce_marker_balance [OF assms(1,2)] show ?thesis
    by (simp add: sql_cjs_eq [OF assms(3)] query_sql params_sql)
qed

end
